theory Spec2Isabelle
  imports Main "HOL-Library.Word" "HOL-Library.Sublist" "HOL-Library.Monad_Syntax"
begin

section \<open>Values shared by the logging core\<close>

text \<open>
  A Go \<open>time.Time\<close> is read as the instant it denotes: nanoseconds since the Unix epoch.
  \<open>Before\<close> and \<open>After\<close> compare instants strictly, as \<open>Time.Before\<close> and
  \<open>Time.After\<close> do. A Go \<open>int\<close> is a 64-bit two's complement word, read with
  \<open>sint\<close>. A Go \<open>error\<close> is its message.
\<close>

type_synonym time = int
type_synonym go_int = "64 word"
type_synonym error = string

definition Before :: "time \<Rightarrow> time \<Rightarrow> bool" where
  "Before t u = (t < u)"

definition After :: "time \<Rightarrow> time \<Rightarrow> bool" where
  "After t u = (u < t)"

subsection \<open>The string functions the package calls\<close>

text \<open>\<open>strings.Contains s substr\<close>: \<open>substr\<close> occurs in \<open>s\<close> as a contiguous block.\<close>

fun strContains :: "string \<Rightarrow> string \<Rightarrow> bool" where
  "strContains [] substr = (substr = [])"
| "strContains (c # cs) substr = (if prefix substr (c # cs) then True else strContains cs substr)"

text \<open>
  \<open>strings.EqualFold\<close> on ASCII text: equality up to the case of the letters A to Z.
  (Bytes outside ASCII are compared as they are; the Unicode folding of the library is
  not modelled.)
\<close>

definition toLower :: "char \<Rightarrow> char" where
  "toLower c = (if 65 \<le> (of_char c :: nat) \<and> (of_char c :: nat) \<le> 90
                then char_of ((of_char c :: nat) + 32) else c)"

definition EqualFold :: "string \<Rightarrow> string \<Rightarrow> bool" where
  "EqualFold s t = (map toLower s = map toLower t)"

section \<open>Entries, filters and the webhook sink\<close>

text \<open>The dynamic values an entry's \<open>Fields\<close> map of type \<open>map[string]any\<close> can hold.\<close>

datatype any = AnyString string | AnyInt int | AnyBool bool | AnyNil

record LogEntry =
  Timestamp :: time
  Level :: string
  Message :: string
  Source :: string
  Line :: go_int
  Fields :: "string \<rightharpoonup> any"

text \<open>
  \<open>FieldMatch\<close> is a Go map from string to string: here the list of its key and value
  pairs. The filter only asks whether every pair passes, so the order of iteration does
  not matter.
\<close>

record LogFilter =
  Levels :: "string list"
  Sources :: "string list"
  Contains :: "string list"
  StartTime :: "time option"
  EndTime :: "time option"
  FieldMatch :: "(string \<times> string) list"

record WebhookPlugin =
  URL :: string
  APIKey :: string
  Filter :: LogFilter

definition WebhookPlugin_Initialize :: "WebhookPlugin \<Rightarrow> error option" where
  "WebhookPlugin_Initialize w =
     (if URL w = [] then Some ''webhook URL is required'' else None)"

definition WebhookPlugin_Close :: "WebhookPlugin \<Rightarrow> error option" where
  "WebhookPlugin_Close w = None"

text \<open>
  \<open>ShouldHandle\<close>, check by check in the order of the source: each \<open>return false\<close> is
  one branch. \<open>fieldValue != value\<close> compares an \<open>any\<close> with a string: they are equal
  only when the dynamic value is that string.
\<close>

definition levelMatch :: "LogFilter \<Rightarrow> LogEntry \<Rightarrow> bool" where
  "levelMatch f entry = list_ex (\<lambda>level. EqualFold (Level entry) level) (Levels f)"

definition sourceMatch :: "LogFilter \<Rightarrow> LogEntry \<Rightarrow> bool" where
  "sourceMatch f entry = list_ex (\<lambda>source. strContains (Source entry) source) (Sources f)"

definition fieldFails :: "LogEntry \<Rightarrow> string \<times> string \<Rightarrow> bool" where
  "fieldFails entry kv =
     (case Fields entry (fst kv) of
        None \<Rightarrow> True
      | Some fieldValue \<Rightarrow> fieldValue \<noteq> AnyString (snd kv))"

definition WebhookPlugin_ShouldHandle :: "WebhookPlugin \<Rightarrow> LogEntry \<Rightarrow> bool" where
  "WebhookPlugin_ShouldHandle w entry =
     (if Levels (Filter w) \<noteq> [] \<and> \<not> levelMatch (Filter w) entry then False
      else if Sources (Filter w) \<noteq> [] \<and> \<not> sourceMatch (Filter w) entry then False
      else if list_ex (\<lambda>substr. \<not> strContains (Message entry) substr) (Contains (Filter w))
        then False
      else if (case StartTime (Filter w) of None \<Rightarrow> False
               | Some s \<Rightarrow> Before (Timestamp entry) s) then False
      else if (case EndTime (Filter w) of None \<Rightarrow> False
               | Some e \<Rightarrow> After (Timestamp entry) e) then False
      else if list_ex (fieldFails entry) (FieldMatch (Filter w)) then False
      else True)"

section \<open>The registry of sinks (logger.go, AddPlugin and RemovePlugin)\<close>

text \<open>
  A \<open>LogPlugin\<close> is an interface value. The registry compares plugins with \<open>==\<close>, which
  for the pointer receivers of this package is identity: \<open>ident\<close> stands for the
  address. \<open>Initialize\<close> and \<open>Close\<close> are the results of calling the methods, and
  \<open>ShouldHandle\<close> is the plugin's predicate. \<open>Handle\<close> runs inside the goroutine that
  \<open>logWithSource\<close> starts and is no part of the emitting call's own steps.
\<close>

record LogPlugin =
  ident :: nat
  Initialize :: "error option"
  Close :: "error option"
  ShouldHandle :: "LogEntry \<Rightarrow> bool"

definition webhook :: "nat \<Rightarrow> WebhookPlugin \<Rightarrow> LogPlugin" where
  "webhook a w =
     \<lparr>ident = a, Initialize = WebhookPlugin_Initialize w, Close = WebhookPlugin_Close w,
      ShouldHandle = WebhookPlugin_ShouldHandle w\<rparr>"

record Logger =
  debug :: bool
  logFile :: string
  plugins :: "LogPlugin list"

definition AddPlugin :: "Logger \<Rightarrow> LogPlugin \<Rightarrow> error option \<times> Logger" where
  "AddPlugin l plugin =
     (case Initialize plugin of
        Some err \<Rightarrow> (Some (''failed to initialize plugin: '' @ err), l)
      | None \<Rightarrow> (None, l\<lparr>plugins := plugins l @ [plugin]\<rparr>))"

text \<open>
  The loop of \<open>RemovePlugin\<close> over \<open>l.plugins\<close>: \<open>i\<close> is the index of the plugin at the
  head of the part still to visit, \<open>ps\<close> the whole list.
\<close>

fun removeAt :: "nat \<Rightarrow> LogPlugin list \<Rightarrow> LogPlugin \<Rightarrow> LogPlugin list
    \<Rightarrow> error option \<times> LogPlugin list" where
  "removeAt i ps plugin [] = (Some ''plugin not found'', ps)"
| "removeAt i ps plugin (p # rest) =
     (if ident p = ident plugin then
        (case Close p of
           Some err \<Rightarrow> (Some (''failed to close plugin: '' @ err), ps)
         | None \<Rightarrow> (None, take i ps @ drop (i + 1) ps))
      else removeAt (i + 1) ps plugin rest)"

definition RemovePlugin :: "Logger \<Rightarrow> LogPlugin \<Rightarrow> error option \<times> Logger" where
  "RemovePlugin l plugin =
     (case removeAt 0 (plugins l) plugin (plugins l) of
        (err, ps) \<Rightarrow> (err, l\<lparr>plugins := ps\<rparr>))"

section \<open>Calendar time and the line header\<close>

text \<open>
  The standard library's calendar, as the package uses it: the civil date of a day number
  (days since 1970-01-01, proleptic Gregorian) and back. The local zone is a fixed offset
  \<open>loc\<close>, in seconds east of UTC.
\<close>

definition civil_from_days :: "int \<Rightarrow> int \<times> int \<times> int" where
  "civil_from_days z =
     (let z' = z + 719468;
          era = z' div 146097;
          doe = z' mod 146097;
          yoe = (doe - doe div 1460 + doe div 36524 - doe div 146096) div 365;
          doy = doe - (365 * yoe + yoe div 4 - yoe div 100);
          mp = (5 * doy + 2) div 153;
          d = doy - (153 * mp + 2) div 5 + 1;
          m = (if mp < 10 then mp + 3 else mp - 9);
          y = yoe + era * 400
      in (if m \<le> 2 then y + 1 else y, m, d))"

definition days_from_civil :: "int \<Rightarrow> int \<Rightarrow> int \<Rightarrow> int" where
  "days_from_civil y m d =
     (let y' = (if m \<le> 2 then y - 1 else y);
          era = y' div 400;
          yoe = y' mod 400;
          doy = (153 * (if 2 < m then m - 3 else m + 9) + 2) div 5 + d - 1;
          doe = yoe * 365 + yoe div 4 - yoe div 100 + doy
      in era * 146097 + doe - 719468)"

definition isLeap :: "int \<Rightarrow> bool" where
  "isLeap y = (y mod 4 = 0 \<and> (y mod 400 = 0 \<or> y mod 100 \<noteq> 0))"

definition daysIn :: "int \<Rightarrow> int \<Rightarrow> int" where
  "daysIn m y =
     (if m = 2 then (if isLeap y then 29 else 28)
      else if m = 4 \<or> m = 6 \<or> m = 9 \<or> m = 11 then 30 else 31)"

text \<open>\<open>time.Date(y, m, d, hh, mm, ss, nsec, loc)\<close> as an instant.\<close>

definition Date :: "int \<Rightarrow> int \<Rightarrow> int \<Rightarrow> int \<Rightarrow> int \<Rightarrow> int \<Rightarrow> int \<Rightarrow> int \<Rightarrow> time" where
  "Date y m d hh mm ss nsec loc =
     ((days_from_civil y m d * 86400 + hh * 3600 + mm * 60 + ss) - loc) * 1000000000 + nsec"

text \<open>The wall clock of an instant in the zone \<open>loc\<close>: seconds since the epoch, shifted.\<close>

definition wallSeconds :: "int \<Rightarrow> time \<Rightarrow> int" where
  "wallSeconds loc t = t div 1000000000 + loc"

subsection \<open>Decimal digits\<close>

definition digit :: "nat \<Rightarrow> char" where
  "digit n = char_of (48 + n)"

fun decimal :: "nat \<Rightarrow> string" where
  "decimal n = (if n < 10 then [digit n] else decimal (n div 10) @ [digit (n mod 10)])"

declare decimal.simps [simp del]

text \<open>The \<open>itoa\<close> of package \<open>log\<close>: decimal, zero-padded to at least \<open>wid\<close> digits.\<close>

definition itoa :: "int \<Rightarrow> nat \<Rightarrow> string" where
  "itoa i wid = replicate (wid - length (decimal (nat i))) (CHR ''0'') @ decimal (nat i)"

text \<open>\<open>%d\<close> of a Go \<open>int\<close>.\<close>

definition fmt_d :: "go_int \<Rightarrow> string" where
  "fmt_d n = (if sint n < 0 then CHR ''-'' # decimal (nat (- sint n)) else decimal (nat (sint n)))"

text \<open>
  The header \<open>log.LstdFlags\<close> puts before a message: date and time of the instant in
  the local zone, \<open>2006/01/02 15:04:05\<close> and a space.
\<close>

definition formatHeader :: "int \<Rightarrow> time \<Rightarrow> string" where
  "formatHeader loc t =
     (let s = wallSeconds loc t;
          ymd = civil_from_days (s div 86400);
          sod = s mod 86400
      in itoa (fst ymd) 4 @ ''/'' @ itoa (fst (snd ymd)) 2 @ ''/'' @ itoa (snd (snd ymd)) 2 @ '' '' @
         itoa (sod div 3600) 2 @ '':'' @ itoa (sod mod 3600 div 60) 2 @ '':'' @
         itoa (sod mod 60) 2 @ '' '')"

text \<open>
  What \<open>Logger.Printf\<close> hands to the writer: header, message, and a newline unless the
  message ends with one.
\<close>

definition Printf :: "int \<Rightarrow> time \<Rightarrow> string \<Rightarrow> string" where
  "Printf loc t s =
     formatHeader loc t @ s @ (if s \<noteq> [] \<and> last s = CHR 0x0A then [] else [CHR 0x0A])"

section \<open>Emitting an entry (logger.go, logWithSource)\<close>

text \<open>
  The steps of one call of \<open>logWithSource\<close> that reach outside it, in program order:
  \<open>StartDelivery a e\<close> is the \<open>go\<close> statement that starts the delivery of \<open>e\<close> to the
  plugin at \<open>a\<close>, \<open>Write s\<close> the call of \<open>l.logger.Printf\<close> that writes \<open>s\<close> to the
  rotating file (and the console). \<open>Printf\<close> returns nothing, so the call never learns
  whether the write succeeded. The diagnostic \<open>fmt.Println\<close> calls are left out.

  The list is the sequence of a call that runs to its end. What a started delivery does
  (\<open>Handle\<close>, in its own goroutine) is no step of the call; a process that ends while the
  call runs (a panic in such a goroutine, say) has done an initial part \<open>take n\<close> of the
  list and no more, so nothing here says that the write is reached.
\<close>

datatype effect = StartDelivery nat LogEntry | Write string

text \<open>
  \<open>caller\<close> is what \<open>runtime.Caller(2)\<close> reports (file, already made relative, and
  line), \<open>None\<close> when it reports nothing. \<open>now\<close> is the clock reading of the entry,
  \<open>wnow\<close> the one package \<open>log\<close> takes for the header.
\<close>

definition callSite :: "Logger \<Rightarrow> string \<Rightarrow> (string \<times> go_int) option \<Rightarrow> string \<times> go_int" where
  "callSite l level caller =
     (if level = ''DEBUG'' \<and> debug l then
        (case caller of Some (file, lineNum) \<Rightarrow> (file, lineNum) | None \<Rightarrow> ([], 0))
      else ([], 0))"

definition newEntry :: "Logger \<Rightarrow> time \<Rightarrow> (string \<times> go_int) option \<Rightarrow> string \<Rightarrow> string
    \<Rightarrow> LogEntry" where
  "newEntry l now caller level msg =
     \<lparr>Timestamp = now, Level = level, Message = msg,
      Source = fst (callSite l level caller), Line = snd (callSite l level caller),
      Fields = Map.empty\<rparr>"

definition logText :: "Logger \<Rightarrow> (string \<times> go_int) option \<Rightarrow> string \<Rightarrow> string \<Rightarrow> string" where
  "logText l caller level msg =
     (if fst (callSite l level caller) \<noteq> [] then
        ''['' @ level @ ''] '' @ fst (callSite l level caller) @ '':'' @
          fmt_d (snd (callSite l level caller)) @ '': '' @ msg
      else ''['' @ level @ ''] '' @ msg)"

fun dispatch :: "LogPlugin list \<Rightarrow> LogEntry \<Rightarrow> effect list" where
  "dispatch [] entry = []"
| "dispatch (plugin # rest) entry =
     (if ShouldHandle plugin entry then StartDelivery (ident plugin) entry # dispatch rest entry
      else dispatch rest entry)"

definition logWithSource :: "Logger \<Rightarrow> int \<Rightarrow> time \<Rightarrow> time \<Rightarrow> (string \<times> go_int) option
    \<Rightarrow> string \<Rightarrow> string \<Rightarrow> effect list" where
  "logWithSource l loc now wnow caller level msg =
     dispatch (plugins l) (newEntry l now caller level msg) @
     [Write (Printf loc wnow (logText l caller level msg))]"

text \<open>
  The order the specification asks for, as a check of a trace: a delivery is started only
  once a write has been done.
\<close>

fun startedAfterWrite :: "bool \<Rightarrow> effect list \<Rightarrow> bool" where
  "startedAfterWrite written [] = True"
| "startedAfterWrite written (Write s # es) = startedAfterWrite True es"
| "startedAfterWrite written (StartDelivery a e # es) =
     (if written then startedAfterWrite written es else False)"

text \<open>The opposite order: once a write has been issued no delivery is started.\<close>

fun noStartAfterWrite :: "bool \<Rightarrow> effect list \<Rightarrow> bool" where
  "noStartAfterWrite written [] = True"
| "noStartAfterWrite written (Write s # es) = noStartAfterWrite True es"
| "noStartAfterWrite written (StartDelivery a e # es) =
     (if written then False else noStartAfterWrite written es)"

section \<open>Reading a timestamp back (swagger.go, extractTimestamp)\<close>

subsection \<open>\<open>time.Parse\<close> for the two layouts of the package\<close>

definition isDigit :: "char \<Rightarrow> bool" where
  "isDigit c = (48 \<le> (of_char c :: nat) \<and> (of_char c :: nat) \<le> 57)"

definition digitVal :: "char \<Rightarrow> int" where
  "digitVal c = int (of_char c) - 48"

definition atoi :: "string \<Rightarrow> int" where
  "atoi ds = fold (\<lambda>c n. n * 10 + digitVal c) ds 0"

text \<open>\<open>getnum\<close>: one or two digits, exactly two when \<open>fixed\<close>.\<close>

fun getnum :: "bool \<Rightarrow> string \<Rightarrow> (int \<times> string) option" where
  "getnum fixed [] = None"
| "getnum fixed [a] =
     (if \<not> isDigit a then None else if fixed then None else Some (digitVal a, []))"
| "getnum fixed (a # b # rest) =
     (if \<not> isDigit a then None
      else if \<not> isDigit b then (if fixed then None else Some (digitVal a, b # rest))
      else Some (digitVal a * 10 + digitVal b, rest))"

text \<open>The year \<open>2006\<close> of a layout: exactly four digits.\<close>

definition getyear :: "string \<Rightarrow> (int \<times> string) option" where
  "getyear v =
     (if length v < 4 \<or> \<not> list_all isDigit (take 4 v) then None
      else Some (atoi (take 4 v), drop 4 v))"

text \<open>A literal character of the layout; a space of the layout takes a run of spaces.\<close>

fun skipChar :: "char \<Rightarrow> string \<Rightarrow> string option" where
  "skipChar c [] = None"
| "skipChar c (a # rest) = (if a = c then Some rest else None)"

definition skipSpace :: "string \<Rightarrow> string option" where
  "skipSpace v =
     (if v \<noteq> [] \<and> hd v \<noteq> CHR '' '' then None
      else Some (dropWhile (\<lambda>c. c = CHR '' '') v))"

text \<open>
  After the seconds the input may carry a fraction the layout does not name: a period or
  comma and digits, of which nine count.
\<close>

definition fracSeconds :: "string \<Rightarrow> int \<times> string" where
  "fracSeconds v =
     (case v of
        sep # d # rest \<Rightarrow>
          (if (sep = CHR ''.'' \<or> sep = CHR '','') \<and> isDigit d then
             (atoi (take 9 (takeWhile isDigit (d # rest))) *
                10 ^ (9 - length (take 9 (takeWhile isDigit (d # rest)))),
              dropWhile isDigit (d # rest))
           else (0, v))
      | _ \<Rightarrow> (0, v))"

text \<open>The clock part \<open>15:04:05\<close>, up to the end of the input.\<close>

definition parseClock :: "string \<Rightarrow> (int \<times> int \<times> int \<times> int) option" where
  "parseClock v =
     do {
       (hour, v1) \<leftarrow> getnum False v;
       if hour < 0 \<or> 24 \<le> hour then None else
       do {
         v2 \<leftarrow> skipChar (CHR '':'') v1;
         (minute, v3) \<leftarrow> getnum True v2;
         if minute < 0 \<or> 60 \<le> minute then None else
         do {
           v4 \<leftarrow> skipChar (CHR '':'') v3;
           (sec, v5) \<leftarrow> getnum True v4;
           if sec < 0 \<or> 60 \<le> sec then None
           else if snd (fracSeconds v5) \<noteq> [] then None
           else Some (hour, minute, sec, fst (fracSeconds v5))
         }
       }
     }"

text \<open>
  \<open>time.Parse("2006/01/02 15:04:05", v)\<close>: with no zone in the layout the fields are read
  as UTC.
\<close>

definition parseDateTime :: "string \<Rightarrow> time option" where
  "parseDateTime v =
     do {
       (year, v1) \<leftarrow> getyear v;
       v2 \<leftarrow> skipChar (CHR ''/'') v1;
       (month, v3) \<leftarrow> getnum True v2;
       if month \<le> 0 \<or> 12 < month then None else
       do {
         v4 \<leftarrow> skipChar (CHR ''/'') v3;
         (day, v5) \<leftarrow> getnum True v4;
         v6 \<leftarrow> skipSpace v5;
         (hour, minute, sec, nsec) \<leftarrow> parseClock v6;
         if day < 1 \<or> daysIn month year < day then None
         else Some (Date year month day hour minute sec nsec 0)
       }
     }"

subsection \<open>Splitting a line at spaces\<close>

text \<open>\<open>strings.SplitN(s, " ", n)\<close>: at most \<open>n\<close> parts, the last one the unsplit rest.\<close>

fun SplitN :: "string \<Rightarrow> nat \<Rightarrow> string list" where
  "SplitN s 0 = []"
| "SplitN s (Suc 0) = [s]"
| "SplitN s (Suc (Suc n)) =
     (if CHR '' '' \<in> set s then
        takeWhile (\<lambda>c. c \<noteq> CHR '' '') s # SplitN (tl (dropWhile (\<lambda>c. c \<noteq> CHR '' '') s)) (Suc n)
      else [s])"

definition errInvalidTimestamp :: error where
  "errInvalidTimestamp =
     ''invalid timestamp format: must be either '2006/01/02 15:04:05' or '15:04:05'' @ [CHR 0x27]"

text \<open>
  \<open>now\<close> is the clock reading of the fallback branch and \<open>loc\<close> the local zone: a bare
  time of day is put on the local date of \<open>now\<close>, in the local zone.
\<close>

definition extractTimestamp :: "time \<Rightarrow> int \<Rightarrow> string \<Rightarrow> error + time" where
  "extractTimestamp now loc line =
     (let parts = SplitN line 3 in
      if length parts < 2 then Inl ''invalid log line format''
      else
        (case parseDateTime (parts ! 0 @ '' '' @ parts ! 1) of
           Some timestamp \<Rightarrow> Inr timestamp
         | None \<Rightarrow>
             (case parseClock (parts ! 0) of
                Some (hour, minute, sec, nsec) \<Rightarrow>
                  (case civil_from_days (wallSeconds loc now div 86400) of
                     (y, m, d) \<Rightarrow> Inr (Date y m d hour minute sec 0 loc))
              | None \<Rightarrow> Inl errInvalidTimestamp)))"

section \<open>Retrieval (swagger.go, GetLogs)\<close>

text \<open>
  The request as decoded from the query or the body. \<open>time.Duration\<close> is a 64-bit count
  of nanoseconds and its arithmetic wraps; \<open>Add\<close> moves an instant by a duration (the
  instants of a request lie far inside the range of \<open>time.Time\<close>, whose own saturation
  is not modelled).
\<close>

record LogRequest =
  FromTime :: "time option"
  ToTime :: "time option"
  LastLines :: "go_int option"
  LastMinutes :: "go_int option"
  Format :: string

definition Minute :: "64 word" where
  "Minute = 60000000000"

definition Hour :: "64 word" where
  "Hour = 3600000000000"

definition Add :: "time \<Rightarrow> 64 word \<Rightarrow> time" where
  "Add t d = t + sint d"

text \<open>
  The three steps that follow the check of the format: \<open>lastMinutes\<close>, the default of
  100 lines, and the default start one hour before a lone end.
\<close>

definition normalizeRequest :: "time \<Rightarrow> LogRequest \<Rightarrow> LogRequest" where
  "normalizeRequest now req =
     (let req1 = (case LastMinutes req of
                    Some m \<Rightarrow> req\<lparr>FromTime := Some (Add now ((- m) * Minute)), ToTime := Some now\<rparr>
                  | None \<Rightarrow> req);
          req2 = (if LastLines req1 = None \<and> FromTime req1 = None \<and> ToTime req1 = None
                  then req1\<lparr>LastLines := Some 100\<rparr> else req1)
      in (case ToTime req2 of
            Some t \<Rightarrow> (if FromTime req2 = None then req2\<lparr>FromTime := Some (Add t (- 1 * Hour))\<rparr>
                       else req2)
          | None \<Rightarrow> req2))"

text \<open>
  The log file as the handler meets it: \<open>os.Open\<close> fails, or the scanner yields the lines
  of \<open>Opened\<close> in order and then stops, with the error \<open>scanner.Err()\<close> reports.
\<close>

datatype logfile = OpenFails error | Opened "string list" "error option"

text \<open>
  The tail loop: \<open>buffer\<close> grows by the line read and loses its first line once it is
  longer than \<open>n\<close>.
\<close>

fun tailScan :: "int \<Rightarrow> string list \<Rightarrow> string list \<Rightarrow> string list" where
  "tailScan n buffer [] = buffer"
| "tailScan n buffer (line # rest) =
     tailScan n (if n < int (length (buffer @ [line])) then tl (buffer @ [line])
                 else buffer @ [line]) rest"

text \<open>The time loop: each \<open>continue\<close> leaves \<open>lines\<close> as it is.\<close>

fun timeScan :: "time \<Rightarrow> int \<Rightarrow> time option \<Rightarrow> time option \<Rightarrow> string list \<Rightarrow> string list
    \<Rightarrow> string list" where
  "timeScan now loc fromTime toTime lines [] = lines"
| "timeScan now loc fromTime toTime lines (line # rest) =
     (case extractTimestamp now loc line of
        Inl err \<Rightarrow> timeScan now loc fromTime toTime lines rest
      | Inr timestamp \<Rightarrow>
          (if (case fromTime of Some f \<Rightarrow> Before timestamp f | None \<Rightarrow> False)
             then timeScan now loc fromTime toTime lines rest
           else if (case toTime of Some t \<Rightarrow> After timestamp t | None \<Rightarrow> False)
             then timeScan now loc fromTime toTime lines rest
           else timeScan now loc fromTime toTime (lines @ [line]) rest))"

text \<open>
  \<open>make([]string, 0, n)\<close> panics when \<open>n\<close> is negative or more than the runtime can
  allocate; \<open>maxcap\<close> is the largest capacity it grants. \<open>Inl\<close> is the panic.
\<close>

definition selectLines :: "int \<Rightarrow> time \<Rightarrow> int \<Rightarrow> LogRequest \<Rightarrow> string list
    \<Rightarrow> string + string list" where
  "selectLines maxcap now loc req content =
     (case LastLines req of
        Some n \<Rightarrow>
          (if FromTime req = None then
             (if sint n < 0 \<or> maxcap < sint n then Inl ''makeslice: cap out of range''
              else Inr (tailScan (sint n) [] content))
           else Inr (timeScan now loc (FromTime req) (ToTime req) [] content))
      | None \<Rightarrow> Inr (timeScan now loc (FromTime req) (ToTime req) [] content))"

subsection \<open>Encoding the selected lines\<close>

text \<open>\<open>strings.Trim(s, cutset)\<close>: the characters of \<open>cutset\<close> leave both ends.\<close>

definition Trim :: "string \<Rightarrow> string \<Rightarrow> string" where
  "Trim s cutset =
     rev (dropWhile (\<lambda>c. c \<in> set cutset) (rev (dropWhile (\<lambda>c. c \<in> set cutset) s)))"

text \<open>The record the CSV branch writes for one line, none when the line has under four parts.\<close>

definition csvRecord :: "string \<Rightarrow> string list list" where
  "csvRecord line =
     (let parts = SplitN line 4 in
      if 4 \<le> length parts then
        [[parts ! 0 @ '' '' @ parts ! 1, Trim (parts ! 2) ''[]'', parts ! 3]]
      else [])"

text \<open>
  The tokens of a line in the specification's words, whitespace-delimited: the maximal
  runs of characters that are not white space (space, tab, newline, vertical tab, form
  feed, carriage return). \<open>cur\<close> is the token being read.
\<close>

definition isSpace :: "char \<Rightarrow> bool" where
  "isSpace c = (c = CHR '' '' \<or> (9 \<le> (of_char c :: nat) \<and> (of_char c :: nat) \<le> 13))"

fun tokensFrom :: "string \<Rightarrow> string \<Rightarrow> string list" where
  "tokensFrom cur [] = (if cur = [] then [] else [cur])"
| "tokensFrom cur (c # cs) =
     (if isSpace c then (if cur = [] then tokensFrom [] cs else cur # tokensFrom [] cs)
      else tokensFrom (cur @ [c]) cs)"

definition whitespaceTokens :: "string \<Rightarrow> string list" where
  "whitespaceTokens line = tokensFrom [] line"

text \<open>
  A response: an error status with its message, or the payload of one of the four
  encodings. \<open>Json\<close> and \<open>JsonPretty\<close> hold the \<open>Lines\<close> handed to the JSON encoder,
  \<open>Csv\<close> the records handed to \<open>csv.Writer.Write\<close> in order, \<open>Text\<close> the bytes written.
  \<open>Panic\<close> is a run-time panic of the handler.
\<close>

datatype response =
    Error nat string
  | Json "string list"
  | JsonPretty "string list"
  | Csv "string list list"
  | Text string
  | Panic string

definition encode :: "string \<Rightarrow> string list \<Rightarrow> response" where
  "encode fmt lines =
     (if fmt = ''json'' then Json lines
      else if fmt = ''jsonpretty'' then JsonPretty lines
      else if fmt = ''csv'' then
        Csv ([''Timestamp'', ''Level'', ''Message''] # concat (map csvRecord lines))
      else Text (concat (map (\<lambda>line. line @ [CHR 0x0A]) lines)))"

definition withFormat :: "LogRequest \<Rightarrow> LogRequest" where
  "withFormat req = (if Format req = [] then req\<lparr>Format := ''json''\<rparr> else req)"

definition validFormat :: "string \<Rightarrow> bool" where
  "validFormat fmt =
     (fmt = ''json'' \<or> fmt = ''jsonpretty'' \<or> fmt = ''csv'' \<or> fmt = ''text'')"

text \<open>
  The handler from the decoded request on. \<open>now\<close> is the clock of the request (every
  \<open>time.Now()\<close> of one request reads this instant), \<open>loc\<close> the local zone, \<open>l\<close> the
  logger whose file is read.
\<close>

definition GetLogs :: "int \<Rightarrow> time \<Rightarrow> int \<Rightarrow> Logger \<Rightarrow> logfile \<Rightarrow> LogRequest \<Rightarrow> response" where
  "GetLogs maxcap now loc l file req0 =
     (if \<not> validFormat (Format (withFormat req0)) then
        Error 400 ''Invalid format. Must be one of: json, jsonpretty, csv, text''
      else
        (let req = normalizeRequest now (withFormat req0) in
         if logFile l = [] then Error 500 ''Log file path not available''
         else
           (case file of
              OpenFails err \<Rightarrow> Error 500 (''Failed to open log file: '' @ err)
            | Opened content scanErr \<Rightarrow>
                (case selectLines maxcap now loc req content of
                   Inl p \<Rightarrow> Panic p
                 | Inr lines \<Rightarrow>
                     (case scanErr of
                        Some err \<Rightarrow> Error 500 (''Error reading log file: '' @ err)
                      | None \<Rightarrow> encode (Format req) lines)))))"

text \<open>
  The predicate of the range scan in the specification's words: the line's timestamp
  parses and lies within the effective bounds, an absent bound not limiting.
\<close>

definition inRange :: "time \<Rightarrow> int \<Rightarrow> time option \<Rightarrow> time option \<Rightarrow> string \<Rightarrow> bool" where
  "inRange now loc fromTime toTime line =
     (case extractTimestamp now loc line of
        Inl err \<Rightarrow> False
      | Inr ts \<Rightarrow>
          (case fromTime of Some f \<Rightarrow> f \<le> ts | None \<Rightarrow> True) \<and>
          (case toTime of Some t \<Rightarrow> ts \<le> t | None \<Rightarrow> True))"

subsection \<open>Reading the written text back as lines\<close>

text \<open>
  \<open>bufio.ScanLines\<close> over the bytes of a file: the text up to each newline, without a
  carriage return at its end; an unterminated last line counts.
\<close>

definition dropCR :: "string \<Rightarrow> string" where
  "dropCR s = (if s \<noteq> [] \<and> last s = CHR 0x0D then butlast s else s)"

function ScanLines :: "string \<Rightarrow> string list" where
  "ScanLines [] = []"
| "ScanLines (c # cs) =
     dropCR (takeWhile (\<lambda>x. x \<noteq> CHR 0x0A) (c # cs)) #
     ScanLines (drop 1 (dropWhile (\<lambda>x. x \<noteq> CHR 0x0A) (c # cs)))"
  by pat_completeness auto
termination
proof (relation "measure length")
  show "wf (measure length)" by simp
next
  fix c :: char and cs :: string
  have "length (dropWhile (\<lambda>x. x \<noteq> CHR 0x0A) (c # cs)) \<le> length (c # cs)"
    by (rule length_dropWhile_le)
  then show "(drop 1 (dropWhile (\<lambda>x. x \<noteq> CHR 0x0A) (c # cs)), c # cs) \<in> measure length"
    by (cases "dropWhile (\<lambda>x. x \<noteq> CHR 0x0A) (c # cs)") auto
qed

section \<open>Example data\<close>

definition exampleLogger :: Logger where
  "exampleLogger = \<lparr>debug = False, logFile = ''logs/app.log'', plugins = []\<rparr>"

definition emptyFilter :: LogFilter where
  "emptyFilter =
     \<lparr>Levels = [], Sources = [], Contains = [], StartTime = None, EndTime = None,
      FieldMatch = []\<rparr>"

definition exampleHook :: LogPlugin where
  "exampleHook =
     webhook 1 \<lparr>URL = ''http://localhost:9000/hook'', APIKey = ''k'', Filter = emptyFilter\<rparr>"

definition fiveLines :: "string list" where
  "fiveLines =
     [''2024/03/09 10:00:00 [INFO] one'', ''2024/03/09 10:00:01 [INFO] two'',
      ''2024/03/09 10:00:02 [INFO] three'', ''2024/03/09 10:00:03 [INFO] four'',
      ''2024/03/09 10:00:04 [INFO] five'']"

definition noBounds :: LogRequest where
  "noBounds =
     \<lparr>FromTime = None, ToTime = None, LastLines = None, LastMinutes = None, Format = []\<rparr>"

definition tabbedLine :: string where
  "tabbedLine =
     ''2024/03/09'' @ [CHR 0x09] @ ''10:00:03'' @ [CHR 0x09] @ ''[INFO]'' @ [CHR 0x09] @ ''four''"

definition busyPlugin :: LogPlugin where
  "busyPlugin =
     \<lparr>ident = 2, Initialize = None, Close = Some ''connection busy'',
      ShouldHandle = (\<lambda>entry. True)\<rparr>"

definition noUrlHook :: LogPlugin where
  "noUrlHook = webhook 3 \<lparr>URL = [], APIKey = ''k'', Filter = emptyFilter\<rparr>"

definition diskFilter :: WebhookPlugin where
  "diskFilter =
     \<lparr>URL = ''http://localhost:9000/hook'', APIKey = ''k'',
      Filter = emptyFilter\<lparr>Contains := [''disk'', ''full'']\<rparr>\<rparr>"

definition entryWith :: "string \<Rightarrow> LogEntry" where
  "entryWith msg =
     \<lparr>Timestamp = 1710000000000000000, Level = ''ERROR'', Message = msg, Source = [],
      Line = 0, Fields = Map.empty\<rparr>"

section \<open>Auxiliary facts\<close>

subsection \<open>Substrings\<close>

lemma strContains_iff: "strContains s substr \<longleftrightarrow> (\<exists>p q. s = p @ substr @ q)"
proof (induction s)
  case Nil
  then show ?case by auto
next
  case (Cons c cs)
  show ?case
  proof
    assume "strContains (c # cs) substr"
    then consider "prefix substr (c # cs)" | "strContains cs substr"
      by (auto split: if_splits)
    then show "\<exists>p q. c # cs = p @ substr @ q"
    proof cases
      case 1
      then obtain q where "c # cs = substr @ q" by (auto simp: prefix_def)
      then have "c # cs = [] @ substr @ q" by simp
      then show ?thesis by blast
    next
      case 2
      with Cons.IH obtain p q where "cs = p @ substr @ q" by blast
      then have "c # cs = (c # p) @ substr @ q" by simp
      then show ?thesis by blast
    qed
  next
    assume "\<exists>p q. c # cs = p @ substr @ q"
    then obtain p q where pq: "c # cs = p @ substr @ q" by blast
    show "strContains (c # cs) substr"
    proof (cases p)
      case Nil
      with pq have "prefix substr (c # cs)" by (simp add: prefix_def)
      then show ?thesis by simp
    next
      case (Cons a p')
      with pq have "cs = p' @ substr @ q" by simp
      with Cons.IH have "strContains cs substr" by blast
      then show ?thesis by simp
    qed
  qed
qed

subsection \<open>The registry and the dispatch loop\<close>

lemma dispatch_filter:
  "dispatch ps entry =
     map (\<lambda>p. StartDelivery (ident p) entry) (filter (\<lambda>p. ShouldHandle p entry) ps)"
  by (induction ps) auto

lemma noStartAfterWrite_prefix:
  "noStartAfterWrite False (take n (dispatch ps entry @ [Write s]))"
proof (induction ps arbitrary: n)
  case Nil
  show ?case by (cases n) simp_all
next
  case (Cons p ps)
  show ?case
  proof (cases n)
    case 0
    then show ?thesis by simp
  next
    case (Suc k)
    with Cons.IH [of k] Cons.IH [of "Suc k"] show ?thesis by simp
  qed
qed

lemma removeAt_not_found:
  "ident plugin \<notin> ident ` set rest \<Longrightarrow>
   removeAt i ps plugin rest = (Some ''plugin not found'', ps)"
  by (induction rest arbitrary: i) auto

lemma removeAt_close_fails:
  "find (\<lambda>p. ident p = ident plugin) rest = Some p \<Longrightarrow> Close p = Some err \<Longrightarrow>
   removeAt i ps plugin rest = (Some (''failed to close plugin: '' @ err), ps)"
  by (induction rest arbitrary: i) (auto split: if_splits)

subsection \<open>The two scans\<close>

lemma tailScan_drop:
  "0 \<le> n \<Longrightarrow> length buffer \<le> nat n \<Longrightarrow>
   tailScan n buffer ls = drop (length (buffer @ ls) - nat n) (buffer @ ls)"
proof (induction ls arbitrary: buffer)
  case Nil
  then show ?case by simp
next
  case (Cons line rest)
  show ?case
  proof (cases "n < int (length (buffer @ [line]))")
    case True
    with Cons.prems have len: "length buffer = nat n" by simp
    have "tailScan n buffer (line # rest) = tailScan n (tl (buffer @ [line])) rest"
      using True by simp
    also have "\<dots> =
        drop (length (tl (buffer @ [line]) @ rest) - nat n) (tl (buffer @ [line]) @ rest)"
      using Cons.prems len by (intro Cons.IH) simp_all
    also have "\<dots> = drop (length (buffer @ line # rest) - nat n) (buffer @ line # rest)"
      using len Cons.prems by (cases buffer) (simp_all add: drop_Cons')
    finally show ?thesis .
  next
    case False
    then have "tailScan n buffer (line # rest) = tailScan n (buffer @ [line]) rest"
      by simp
    also have "\<dots> =
        drop (length ((buffer @ [line]) @ rest) - nat n) ((buffer @ [line]) @ rest)"
      using Cons.prems False by (intro Cons.IH) simp_all
    finally show ?thesis by simp
  qed
qed

lemma timeScan_filter:
  "timeScan now loc fromTime toTime lines ls =
     lines @ filter (inRange now loc fromTime toTime) ls"
  by (induction ls arbitrary: lines)
    (auto simp: inRange_def Before_def After_def split: sum.splits option.splits)

subsection \<open>Normalization\<close>

lemma sint_minutes:
  fixes m :: "64 word"
  assumes "- 153722867 \<le> sint m" "sint m \<le> 153722867"
  shows "sint ((- m) * Minute) = - (sint m * 60000000000)"
proof -
  have "(- m) * Minute = word_of_int (- (sint m * 60000000000))"
    by (simp add: Minute_def)
  moreover have "sint (word_of_int (- (sint m * 60000000000)) :: 64 word) =
      - (sint m * 60000000000)"
    unfolding sint_sbintrunc' using assms
    by (intro signed_take_bit_int_eq_self) simp_all
  ultimately show ?thesis by simp
qed

lemma normalize_Format [simp]: "Format (normalizeRequest now req) = Format req"
  by (simp add: normalizeRequest_def Let_def split: option.splits)

lemma normalize_no_bounds:
  assumes "LastLines req = Some n" "LastMinutes req = None"
    "FromTime req = None" "ToTime req = None"
  shows "normalizeRequest now req = req"
  using assms by (simp add: normalizeRequest_def)

lemma withFormat_fields [simp]:
  "LastLines (withFormat req) = LastLines req"
  "LastMinutes (withFormat req) = LastMinutes req"
  "FromTime (withFormat req) = FromTime req"
  "ToTime (withFormat req) = ToTime req"
  by (simp_all add: withFormat_def)

lemma normalize_bounds_cong:
  assumes "LastMinutes r = LastMinutes r'" "FromTime r = FromTime r'" "ToTime r = ToTime r'"
    "LastLines r = LastLines r'"
  shows "FromTime (normalizeRequest now r) = FromTime (normalizeRequest now r')"
    and "ToTime (normalizeRequest now r) = ToTime (normalizeRequest now r')"
    and "LastLines (normalizeRequest now r) = LastLines (normalizeRequest now r')"
  using assms by (auto simp: normalizeRequest_def Let_def split: option.splits)

lemma normalize_time_bound:
  assumes "LastMinutes req \<noteq> None \<or> FromTime req \<noteq> None \<or> ToTime req \<noteq> None"
  shows "FromTime (normalizeRequest now req) \<noteq> None"
  using assms by (auto simp: normalizeRequest_def Let_def split: option.splits)


subsection \<open>Selection and the handler\<close>

lemma selectLines_cong:
  assumes "FromTime r = FromTime r'" "ToTime r = ToTime r'" "LastLines r = LastLines r'"
  shows "selectLines maxcap now loc r content = selectLines maxcap now loc r' content"
  using assms by (auto simp: selectLines_def split: option.splits)

lemma select_withFormat:
  "selectLines maxcap now loc (normalizeRequest now (withFormat req)) content =
   selectLines maxcap now loc (normalizeRequest now req) content"
  by (rule selectLines_cong; rule normalize_bounds_cong; simp)

lemma selectLines_time:
  assumes "FromTime r \<noteq> None"
  shows "selectLines maxcap now loc r content =
    Inr (filter (inRange now loc (FromTime r) (ToTime r)) content)"
  using assms by (auto simp: selectLines_def timeScan_filter split: option.splits)

lemma GetLogs_opened:
  assumes "validFormat (Format (withFormat req))" "logFile l \<noteq> []"
  shows "GetLogs maxcap now loc l (Opened content None) req =
     (case selectLines maxcap now loc (normalizeRequest now req) content of
        Inl p \<Rightarrow> Panic p
      | Inr lines \<Rightarrow> encode (Format (withFormat req)) lines)"
  using assms by (simp add: GetLogs_def Let_def select_withFormat split: sum.splits)

subsection \<open>Splitting a line for CSV\<close>

lemma count_after_first:
  "c \<in> set s \<Longrightarrow> count_list s c = Suc (count_list (tl (dropWhile (\<lambda>x. x \<noteq> c) s)) c)"
  by (induction s) auto

lemma length_SplitN:
  "length (SplitN s (Suc n)) = min (Suc n) (Suc (count_list s (CHR '' '')))"
proof (induction n arbitrary: s)
  case 0
  show ?case by simp
next
  case (Suc n)
  show ?case
  proof (cases "CHR '' '' \<in> set s")
    case True
    then show ?thesis
      using Suc.IH [of "tl (dropWhile (\<lambda>c. c \<noteq> CHR '' '') s)"]
      by (simp add: count_after_first [OF True])
  next
    case False
    then have "count_list s (CHR '' '') = 0" by (simp add: count_list_0_iff)
    with False show ?thesis by simp
  qed
qed

lemma takeWhile_upto:
  "c \<notin> set d \<Longrightarrow> takeWhile (\<lambda>x. x \<noteq> c) (d @ c # rest) = d"
  by (induction d) auto

lemma dropWhile_upto:
  "c \<notin> set d \<Longrightarrow> dropWhile (\<lambda>x. x \<noteq> c) (d @ c # rest) = c # rest"
  by (induction d) auto

lemma SplitN_step:
  assumes "CHR '' '' \<notin> set d"
  shows "SplitN (d @ CHR '' '' # rest) (Suc (Suc n)) = d # SplitN rest (Suc n)"
  using assms by (simp add: takeWhile_upto dropWhile_upto)

lemma csvRecord_short:
  "count_list line (CHR '' '') < 3 \<Longrightarrow> csvRecord line = []"
  using length_SplitN [of line 3] by (simp add: csvRecord_def Let_def numeral_eq_Suc)

lemma csvRecord_one:
  "3 \<le> count_list line (CHR '' '') \<Longrightarrow> length (csvRecord line) = 1"
  using length_SplitN [of line 3] by (simp add: csvRecord_def Let_def numeral_eq_Suc)

lemma csvRecord_four:
  assumes "CHR '' '' \<notin> set d" "CHR '' '' \<notin> set t" "CHR '' '' \<notin> set lv"
  shows "csvRecord (d @ '' '' @ t @ '' '' @ lv @ '' '' @ m) =
    [[d @ '' '' @ t, Trim lv ''[]'', m]]"
proof -
  have four: "(4::nat) = Suc (Suc (Suc (Suc 0)))" by simp
  have "SplitN (d @ CHR '' '' # t @ CHR '' '' # lv @ CHR '' '' # m) (Suc (Suc (Suc (Suc 0)))) =
      d # SplitN (t @ CHR '' '' # lv @ CHR '' '' # m) (Suc (Suc (Suc 0)))"
    using assms(1) by (rule SplitN_step)
  also have "SplitN (t @ CHR '' '' # lv @ CHR '' '' # m) (Suc (Suc (Suc 0))) =
      t # SplitN (lv @ CHR '' '' # m) (Suc (Suc 0))"
    using assms(2) by (rule SplitN_step)
  also have "SplitN (lv @ CHR '' '' # m) (Suc (Suc 0)) = lv # SplitN m (Suc 0)"
    using assms(3) by (rule SplitN_step)
  finally have "SplitN (d @ '' '' @ t @ '' '' @ lv @ '' '' @ m) 4 = [d, t, lv, m]"
    unfolding four by simp
  then show ?thesis by (simp add: csvRecord_def)
qed

subsection \<open>Evaluations used below\<close>

lemma extract_stack_trace:
  "extractTimestamp 1710000000000000000 0 ''panic: runtime error'' = Inl errInvalidTimestamp"
  by code_simp


section \<open>The claims\<close>

text \<open>
  C1 (as amended). For every log emission, the delivery to each matching sink is started
  before the write of the formatted line to the rotating sink is issued, not after it: in
  the program order of the emitting call the deliveries to the matching sinks are started
  first, in registry order, and the write call follows the last of them; however far the
  call gets, no delivery is started once the write has been issued.
\<close>

theorem delivery_started_before_write:
  "logWithSource l loc now wnow caller level msg =
     map (\<lambda>p. StartDelivery (ident p) (newEntry l now caller level msg))
       (filter (\<lambda>p. ShouldHandle p (newEntry l now caller level msg)) (plugins l)) @
     [Write (Printf loc wnow (logText l caller level msg))] \<and>
   noStartAfterWrite False (take n (logWithSource l loc now wnow caller level msg))"
proof
  show "logWithSource l loc now wnow caller level msg =
     map (\<lambda>p. StartDelivery (ident p) (newEntry l now caller level msg))
       (filter (\<lambda>p. ShouldHandle p (newEntry l now caller level msg)) (plugins l)) @
     [Write (Printf loc wnow (logText l caller level msg))]"
    by (simp add: logWithSource_def dispatch_filter)
  show "noStartAfterWrite False (take n (logWithSource l loc now wnow caller level msg))"
    unfolding logWithSource_def by (rule noStartAfterWrite_prefix)
qed

theorem delivery_started_before_write_witness:
  "logWithSource (exampleLogger\<lparr>plugins := [exampleHook]\<rparr>) 0 1710000000000000000
     1710000000000000000 None ''INFO'' ''Starting server...'' =
   [StartDelivery 1 ((entryWith ''Starting server...'')\<lparr>Level := ''INFO''\<rparr>),
    Write (Printf 0 1710000000000000000 ''[INFO] Starting server...'')] \<and>
   noStartAfterWrite False
     (take 1 (logWithSource (exampleLogger\<lparr>plugins := [exampleHook]\<rparr>) 0 1710000000000000000
        1710000000000000000 None ''INFO'' ''Starting server...''))"
  using delivery_started_before_write [of "exampleLogger\<lparr>plugins := [exampleHook]\<rparr>" 0
      1710000000000000000 1710000000000000000 None "''INFO''" "''Starting server...''" 1]
  by (simp add: exampleLogger_def exampleHook_def webhook_def emptyFilter_def entryWith_def
      WebhookPlugin_ShouldHandle_def newEntry_def logText_def callSite_def)

text \<open>
  The claim as stated, that no delivery is started before the write, fails for a logger
  with one sink whose filter is empty: the delivery is the first step, the write the second.
\<close>

theorem delivery_after_write_counterexample:
  "\<not> startedAfterWrite False
     (logWithSource (exampleLogger\<lparr>plugins := [exampleHook]\<rparr>) 0 1710000000000000000
        1710000000000000000 None ''INFO'' ''Starting server...'')"
  by (simp add: logWithSource_def exampleLogger_def exampleHook_def webhook_def emptyFilter_def
      WebhookPlugin_ShouldHandle_def)

text \<open>
  C2. The round trip of a timestamp: formatting an entry to a log line and reading the
  line's timestamp back with \<open>extractTimestamp\<close> should give the emission instant to the
  second. Where the local zone is not UTC the code does not: in the zone one hour east of
  UTC the logger writes an entry emitted at 2024-03-09 09:32:30 UTC as
  \<open>2024/03/09 10:32:30 [INFO] ...\<close>, and the extractor reads that line back as
  10:32:30 UTC, one hour after the emission instant.
\<close>

theorem roundtrip_shifted_by_zone:
  "extractTimestamp 1709976750000000000 3600
     (hd (ScanLines (Printf 3600 1709976750000000000 ''[INFO] Starting server...''))) =
   Inr (1709976750000000000 + 3600 * 1000000000)"
  by code_simp

text \<open>
  C3 (as amended). For every log file that is read without error and every retrieval
  request with \<open>last_lines = N\<close> set and no time bound in effect, where N is not negative
  and not above the largest slice capacity the runtime grants, the result is the N most
  recent lines of the file (all lines when the file has fewer than N), in the file's
  order, encoded in the requested format.
\<close>

theorem tail_returns_last_lines:
  assumes "LastLines req = Some n" and "LastMinutes req = None"
    and "FromTime req = None" and "ToTime req = None"
    and "0 \<le> sint n" and "sint n \<le> maxcap"
    and "validFormat (Format (withFormat req))" and "logFile l \<noteq> []"
  shows "GetLogs maxcap now loc l (Opened content None) req =
    encode (Format (withFormat req)) (drop (length content - nat (sint n)) content)"
proof -
  have "normalizeRequest now req = req"
    using assms(1-4) by (rule normalize_no_bounds)
  then have "selectLines maxcap now loc (normalizeRequest now req) content =
      Inr (tailScan (sint n) [] content)"
    using assms(1,3,5,6) by (simp add: selectLines_def)
  also have "tailScan (sint n) [] content = drop (length content - nat (sint n)) content"
    using tailScan_drop [of "sint n" "[]" content] assms(5) by simp
  finally show ?thesis
    using assms(7,8) by (simp add: GetLogs_opened)
qed

text \<open>The five-line file of the specification with \<open>last_lines=2\<close>.\<close>

theorem tail_returns_last_lines_witness:
  "GetLogs 17592186044416 1710000000000000000 0 exampleLogger (Opened fiveLines None)
     (noBounds\<lparr>LastLines := Some 2\<rparr>) =
   Json [''2024/03/09 10:00:03 [INFO] four'', ''2024/03/09 10:00:04 [INFO] five'']"
  using tail_returns_last_lines [where req = "noBounds\<lparr>LastLines := Some 2\<rparr>" and n = 2
      and maxcap = 17592186044416 and l = exampleLogger and content = fiveLines
      and now = 1710000000000000000 and loc = 0]
  by (simp add: noBounds_def exampleLogger_def fiveLines_def withFormat_def validFormat_def
      encode_def)

text \<open>
  The claim as stated fails for \<open>last_lines=-1\<close> and for \<open>last_lines=2^62\<close>: the
  allocation of the window panics and the request has no result, where the claim gives
  all five lines for the second request.
\<close>

theorem tail_every_count_counterexample:
  "GetLogs 17592186044416 1710000000000000000 0 exampleLogger (Opened fiveLines None)
     (noBounds\<lparr>LastLines := Some (- 1)\<rparr>) = Panic ''makeslice: cap out of range'' \<and>
   GetLogs 17592186044416 1710000000000000000 0 exampleLogger (Opened fiveLines None)
     (noBounds\<lparr>LastLines := Some 4611686018427387904\<rparr>) =
     Panic ''makeslice: cap out of range''"
  by (simp add: GetLogs_def noBounds_def exampleLogger_def withFormat_def validFormat_def
      normalizeRequest_def selectLines_def)

text \<open>
  C4 (as amended). For every retrieval request in which \<open>last_minutes = m\<close> is set and
  m minutes fit a 64-bit duration in nanoseconds (m at most 153722867 in absolute value),
  normalization sets the effective \<open>from_time\<close> to now minus m minutes and the effective
  \<open>to_time\<close> to now, replacing any \<open>from_time\<close> and \<open>to_time\<close> supplied.
\<close>

theorem last_minutes_sets_bounds:
  assumes "LastMinutes req = Some m"
    and "- 153722867 \<le> sint m" and "sint m \<le> 153722867"
  shows "FromTime (normalizeRequest now req) = Some (now - sint m * 60000000000) \<and>
    ToTime (normalizeRequest now req) = Some now"
  using assms sint_minutes [of m] by (simp add: normalizeRequest_def Add_def)

theorem last_minutes_sets_bounds_witness:
  "FromTime (normalizeRequest 1710000000000000000
       \<lparr>FromTime = Some 5, ToTime = Some 6, LastLines = None, LastMinutes = Some 30,
        Format = []\<rparr>) = Some 1709998200000000000 \<and>
   ToTime (normalizeRequest 1710000000000000000
       \<lparr>FromTime = Some 5, ToTime = Some 6, LastLines = None, LastMinutes = Some 30,
        Format = []\<rparr>) = Some 1710000000000000000"
  using last_minutes_sets_bounds [where req = "\<lparr>FromTime = Some 5, ToTime = Some 6,
      LastLines = None, LastMinutes = Some 30, Format = []\<rparr>"
      and m = 30 and now = 1710000000000000000]
  by simp

text \<open>
  The claim as stated fails for \<open>last_minutes=200000000\<close>: the duration wraps around and
  the effective \<open>from_time\<close> lies some 204 years after now.
\<close>

theorem last_minutes_overflow_counterexample:
  "FromTime (normalizeRequest 1710000000000000000 (noBounds\<lparr>LastMinutes := Some 200000000\<rparr>)) =
     Some (1710000000000000000 + 6446744073709551616) \<and>
   FromTime (normalizeRequest 1710000000000000000 (noBounds\<lparr>LastMinutes := Some 200000000\<rparr>)) \<noteq>
     Some (1710000000000000000 - 200000000 * 60000000000)"
  by (simp add: normalizeRequest_def noBounds_def Add_def Minute_def)

text \<open>
  C5. A filter whose every field is empty (no levels, no sources, no contains, no time
  bounds, no field matches) matches every entry: \<open>ShouldHandle\<close> returns true.
\<close>

theorem empty_filter_matches:
  assumes "Levels (Filter w) = []" and "Sources (Filter w) = []"
    and "Contains (Filter w) = []" and "StartTime (Filter w) = None"
    and "EndTime (Filter w) = None" and "FieldMatch (Filter w) = []"
  shows "WebhookPlugin_ShouldHandle w entry"
  using assms by (simp add: WebhookPlugin_ShouldHandle_def)

theorem empty_filter_matches_witness:
  "WebhookPlugin_ShouldHandle
     \<lparr>URL = ''http://localhost:9000/hook'', APIKey = ''k'',
      Filter = \<lparr>Levels = [], Sources = [], Contains = [], StartTime = None,
                EndTime = None, FieldMatch = []\<rparr>\<rparr>
     \<lparr>Timestamp = 1710000000000000000, Level = ''INFO'', Message = ''Starting server...'',
      Source = [], Line = 0, Fields = Map.empty\<rparr>"
  by (rule empty_filter_matches) simp_all

text \<open>
  C6. With a non-empty \<open>contains\<close> list, a match requires every listed substring to occur
  in the entry's message (a conjunction over the substrings): if the filter matches, each
  listed substring occurs, and if one listed substring is absent the match is false.
\<close>

theorem contains_requires_every_substring:
  "(WebhookPlugin_ShouldHandle w entry \<longrightarrow>
      (\<forall>substr \<in> set (Contains (Filter w)). \<exists>p q. Message entry = p @ substr @ q)) \<and>
   ((\<exists>substr \<in> set (Contains (Filter w)). \<not> (\<exists>p q. Message entry = p @ substr @ q)) \<longrightarrow>
      \<not> WebhookPlugin_ShouldHandle w entry)"
proof -
  have "\<exists>p q. Message entry = p @ substr @ q"
    if h: "WebhookPlugin_ShouldHandle w entry" and m: "substr \<in> set (Contains (Filter w))"
    for substr
  proof -
    from h have "\<not> list_ex (\<lambda>s. \<not> strContains (Message entry) s) (Contains (Filter w))"
      by (auto simp: WebhookPlugin_ShouldHandle_def split: if_splits)
    with m have "strContains (Message entry) substr"
      by (auto simp: list_ex_iff)
    then show ?thesis by (simp add: strContains_iff)
  qed
  then show ?thesis by blast
qed

text \<open>
  A filter asking for \<open>disk\<close> and \<open>full\<close>: it matches \<open>disk full\<close>, where both occur, and
  not \<open>disk ok\<close>, where only one does.
\<close>

theorem contains_requires_every_substring_witness:
  "WebhookPlugin_ShouldHandle diskFilter (entryWith ''disk full'') \<and>
   (\<exists>p q. ''disk full'' = p @ ''full'' @ q) \<and>
   \<not> WebhookPlugin_ShouldHandle diskFilter (entryWith ''disk ok'')"
proof -
  have yes: "WebhookPlugin_ShouldHandle diskFilter (entryWith ''disk full'')"
    by (simp add: WebhookPlugin_ShouldHandle_def diskFilter_def emptyFilter_def entryWith_def)
  have absent: "\<not> strContains ''disk ok'' ''full''"
    by simp
  then have "\<exists>substr \<in> set (Contains (Filter diskFilter)).
      \<not> (\<exists>p q. Message (entryWith ''disk ok'') = p @ substr @ q)"
    by (simp add: strContains_iff diskFilter_def emptyFilter_def entryWith_def)
  with contains_requires_every_substring [of diskFilter "entryWith ''disk ok''"]
  have no: "\<not> WebhookPlugin_ShouldHandle diskFilter (entryWith ''disk ok'')"
    by blast
  from contains_requires_every_substring [of diskFilter "entryWith ''disk full''"] yes
  have "\<forall>substr \<in> set (Contains (Filter diskFilter)).
      \<exists>p q. Message (entryWith ''disk full'') = p @ substr @ q"
    by blast
  then have "\<exists>p q. ''disk full'' = p @ ''full'' @ q"
    by (simp add: diskFilter_def emptyFilter_def entryWith_def)
  with yes no show ?thesis by blast
qed

text \<open>
  C7. During a time-range retrieval scan, a line whose timestamp cannot be parsed is left
  out of the result and the scan goes on over the remaining lines; such a line never makes
  the request fail: the response is the one the file without that line gives, and when the
  file is read without error it is the encoding of the lines in range before and after it.
\<close>

theorem unparsable_line_skipped:
  assumes "extractTimestamp now loc bad = Inl err"
    and "LastMinutes req \<noteq> None \<or> FromTime req \<noteq> None \<or> ToTime req \<noteq> None"
    and "validFormat (Format (withFormat req))" and "logFile l \<noteq> []"
  shows "GetLogs maxcap now loc l (Opened (xs @ bad # ys) None) req =
      encode (Format (withFormat req))
        (filter (inRange now loc (FromTime (normalizeRequest now req))
                   (ToTime (normalizeRequest now req))) xs @
         filter (inRange now loc (FromTime (normalizeRequest now req))
                   (ToTime (normalizeRequest now req))) ys) \<and>
    bad \<notin> set (filter (inRange now loc (FromTime (normalizeRequest now req))
                          (ToTime (normalizeRequest now req))) (xs @ bad # ys)) \<and>
    GetLogs maxcap now loc l (Opened (xs @ bad # ys) scanErr) req =
      GetLogs maxcap now loc l (Opened (xs @ ys) scanErr) req"
proof -
  have bad: "\<not> inRange now loc f t bad" for f t
    using assms(1) by (simp add: inRange_def)
  have ft: "FromTime (normalizeRequest now req) \<noteq> None"
    using assms(2) by (rule normalize_time_bound)
  have sel: "selectLines maxcap now loc (normalizeRequest now req) content =
      Inr (filter (inRange now loc (FromTime (normalizeRequest now req))
                     (ToTime (normalizeRequest now req))) content)" for content
    using ft by (rule selectLines_time)
  have 1: "GetLogs maxcap now loc l (Opened (xs @ bad # ys) None) req =
      encode (Format (withFormat req))
        (filter (inRange now loc (FromTime (normalizeRequest now req))
                   (ToTime (normalizeRequest now req))) xs @
         filter (inRange now loc (FromTime (normalizeRequest now req))
                   (ToTime (normalizeRequest now req))) ys)"
    using assms(3,4) by (simp add: GetLogs_opened sel bad)
  have 2: "GetLogs maxcap now loc l (Opened (xs @ bad # ys) scanErr) req =
      GetLogs maxcap now loc l (Opened (xs @ ys) scanErr) req"
    by (simp add: GetLogs_def Let_def select_withFormat sel bad)
  from 1 2 show ?thesis by (simp add: bad)
qed

text \<open>A file with a stack-trace line between two entries, asked for from 10:00:01 on.\<close>

theorem unparsable_line_skipped_witness:
  "GetLogs 17592186044416 1710000000000000000 0 exampleLogger
     (Opened [''2024/03/09 10:00:01 [INFO] two'', ''panic: runtime error'',
              ''2024/03/09 10:00:03 [INFO] four''] None)
     \<lparr>FromTime = Some 1709978401000000000, ToTime = None, LastLines = None,
      LastMinutes = None, Format = []\<rparr> =
   Json [''2024/03/09 10:00:01 [INFO] two'', ''2024/03/09 10:00:03 [INFO] four'']"
proof -
  have bounds:
    "FromTime (normalizeRequest 1710000000000000000
        \<lparr>FromTime = Some 1709978401000000000, ToTime = None, LastLines = None,
         LastMinutes = None, Format = []\<rparr>) = Some 1709978401000000000"
    "ToTime (normalizeRequest 1710000000000000000
        \<lparr>FromTime = Some 1709978401000000000, ToTime = None, LastLines = None,
         LastMinutes = None, Format = []\<rparr>) = None"
    by (simp_all add: normalizeRequest_def)
  have keep:
    "inRange 1710000000000000000 0 (Some 1709978401000000000) None
       ''2024/03/09 10:00:01 [INFO] two''"
    "inRange 1710000000000000000 0 (Some 1709978401000000000) None
       ''2024/03/09 10:00:03 [INFO] four''"
    by code_simp+
  from unparsable_line_skipped [OF extract_stack_trace,
      where req = "\<lparr>FromTime = Some 1709978401000000000, ToTime = None, LastLines = None,
          LastMinutes = None, Format = []\<rparr>"
        and l = exampleLogger and maxcap = 17592186044416 and scanErr = None
        and xs = "[''2024/03/09 10:00:01 [INFO] two'']"
        and ys = "[''2024/03/09 10:00:03 [INFO] four'']"]
  show ?thesis
    by (simp add: bounds keep exampleLogger_def withFormat_def validFormat_def encode_def)
qed

text \<open>
  C8 (as amended). For \<open>format=csv\<close> the output begins with the header row
  \<open>Timestamp,Level,Message\<close>. The parts of a line are what lies between its single space
  characters (a part may be empty, and a tab does not separate). A selected line with
  fewer than three spaces, which does not split into four parts, gives no row, and the
  request still succeeds; a line with at least three spaces gives exactly one row: the
  first part, a space and the second part as Timestamp, the third part without the
  brackets at its ends as Level, and all that follows the third space as Message.
\<close>

theorem csv_rows:
  assumes "Format req = ''csv''" and "logFile l \<noteq> []"
    and "selectLines maxcap now loc (normalizeRequest now req) content = Inr selected"
  shows "GetLogs maxcap now loc l (Opened content None) req =
      Csv ([''Timestamp'', ''Level'', ''Message''] # concat (map csvRecord selected)) \<and>
    (\<forall>line. count_list line (CHR '' '') < 3 \<longrightarrow> csvRecord line = []) \<and>
    (\<forall>line. 3 \<le> count_list line (CHR '' '') \<longrightarrow> length (csvRecord line) = 1) \<and>
    (\<forall>d t lv m. CHR '' '' \<notin> set d \<and> CHR '' '' \<notin> set t \<and> CHR '' '' \<notin> set lv \<longrightarrow>
       csvRecord (d @ '' '' @ t @ '' '' @ lv @ '' '' @ m) =
         [[d @ '' '' @ t, Trim lv ''[]'', m]])"
proof -
  have fmt: "Format (withFormat req) = ''csv''"
    using assms(1) by (simp add: withFormat_def)
  then have "validFormat (Format (withFormat req))"
    by (simp add: validFormat_def)
  then have "GetLogs maxcap now loc l (Opened content None) req =
      Csv ([''Timestamp'', ''Level'', ''Message''] # concat (map csvRecord selected))"
    using assms(2,3) fmt by (simp add: GetLogs_opened encode_def)
  then show ?thesis
    using csvRecord_short csvRecord_one csvRecord_four by blast
qed

theorem csv_rows_witness:
  "GetLogs 17592186044416 1710000000000000000 0 exampleLogger
     (Opened [''2024/03/09 10:00:03 [INFO] four'', ''panic: boom''] None)
     (noBounds\<lparr>LastLines := Some 2, Format := ''csv''\<rparr>) =
   Csv [[''Timestamp'', ''Level'', ''Message''], [''2024/03/09 10:00:03'', ''INFO'', ''four'']] \<and>
   csvRecord ''panic: boom'' = [] \<and>
   length (csvRecord ''2024/03/09 10:00:03 [INFO] four'') = 1"
proof -
  have sel: "selectLines 17592186044416 1710000000000000000 0
      (normalizeRequest 1710000000000000000 (noBounds\<lparr>LastLines := Some 2, Format := ''csv''\<rparr>))
      [''2024/03/09 10:00:03 [INFO] four'', ''panic: boom''] =
      Inr [''2024/03/09 10:00:03 [INFO] four'', ''panic: boom'']"
    by (simp add: selectLines_def normalizeRequest_def noBounds_def)
  have fmt: "Format (noBounds\<lparr>LastLines := Some 2, Format := ''csv''\<rparr>) = ''csv''"
    by simp
  have path: "logFile exampleLogger \<noteq> []"
    by (simp add: exampleLogger_def)
  note rows = csv_rows [OF fmt path sel]
  from rows have short: "csvRecord ''panic: boom'' = []"
    by simp
  from rows [THEN conjunct2, THEN conjunct2, THEN conjunct1, rule_format,
      of "''2024/03/09 10:00:03 [INFO] four''"]
  have one: "length (csvRecord ''2024/03/09 10:00:03 [INFO] four'') = 1"
    by simp
  from rows [THEN conjunct2, THEN conjunct2, THEN conjunct2, rule_format,
      of "''2024/03/09''" "''10:00:03''" "''[INFO]''" "''four''"]
  have "csvRecord (''2024/03/09'' @ '' '' @ ''10:00:03'' @ '' '' @ ''[INFO]'' @ '' '' @ ''four'') =
      [[''2024/03/09'' @ '' '' @ ''10:00:03'', Trim ''[INFO]'' ''[]'', ''four'']]"
    by simp
  then have long: "csvRecord ''2024/03/09 10:00:03 [INFO] four'' =
      [[''2024/03/09 10:00:03'', ''INFO'', ''four'']]"
    by (simp add: Trim_def)
  from rows short long one show ?thesis by simp
qed

text \<open>
  The claim as stated, with tokens delimited by white space, fails both ways. The line the
  logger writes for an empty message, \<open>2024/03/09 10:00:03 [INFO] \<close>, has three tokens and
  yet gives a row, with an empty Message; a line whose four tokens are separated by tabs
  gives no row.
\<close>

theorem csv_whitespace_tokens_counterexample:
  "length (whitespaceTokens ''2024/03/09 10:00:03 [INFO] '') = 3 \<and>
   GetLogs 17592186044416 1710000000000000000 0 exampleLogger
     (Opened [''2024/03/09 10:00:03 [INFO] ''] None)
     (noBounds\<lparr>LastLines := Some 1, Format := ''csv''\<rparr>) =
   Csv [[''Timestamp'', ''Level'', ''Message''], [''2024/03/09 10:00:03'', ''INFO'', []]] \<and>
   length (whitespaceTokens tabbedLine) = 4 \<and>
   GetLogs 17592186044416 1710000000000000000 0 exampleLogger
     (Opened [tabbedLine] None) (noBounds\<lparr>LastLines := Some 1, Format := ''csv''\<rparr>) =
   Csv [[''Timestamp'', ''Level'', ''Message'']]"
proof -
  have tokens: "length (whitespaceTokens ''2024/03/09 10:00:03 [INFO] '') = 3"
    "length (whitespaceTokens tabbedLine) = 4"
    by code_simp+
  have records: "csvRecord ''2024/03/09 10:00:03 [INFO] '' =
      [[''2024/03/09 10:00:03'', ''INFO'', []]]"
    "csvRecord tabbedLine = []"
    by code_simp+
  have "GetLogs 17592186044416 1710000000000000000 0 exampleLogger (Opened [line] None)
      (noBounds\<lparr>LastLines := Some 1, Format := ''csv''\<rparr>) =
      Csv ([''Timestamp'', ''Level'', ''Message''] # csvRecord line)" for line
    by (simp add: GetLogs_def noBounds_def exampleLogger_def withFormat_def validFormat_def
        normalizeRequest_def selectLines_def encode_def)
  with tokens records show ?thesis by simp
qed



text \<open>
  C10. A registry mutation that fails leaves the registry as it was: when the plugin's
  \<open>Initialize\<close> returns an error \<open>AddPlugin\<close> returns an error, and when the plugin is
  not registered, or the \<open>Close\<close> of the registered plugin returns an error,
  \<open>RemovePlugin\<close> returns an error; in each case the list of plugins is unchanged.
\<close>

theorem registry_unchanged_on_error:
  "(Initialize p = Some e \<longrightarrow>
      AddPlugin l p = (Some (''failed to initialize plugin: '' @ e), l)) \<and>
   (ident q \<notin> ident ` set (plugins l) \<longrightarrow>
      RemovePlugin l q = (Some ''plugin not found'', l)) \<and>
   (find (\<lambda>x. ident x = ident q) (plugins l) = Some r \<and> Close r = Some e' \<longrightarrow>
      RemovePlugin l q = (Some (''failed to close plugin: '' @ e'), l))"
  by (simp add: AddPlugin_def RemovePlugin_def removeAt_not_found removeAt_close_fails)

theorem registry_unchanged_on_error_witness:
  "AddPlugin (exampleLogger\<lparr>plugins := [busyPlugin]\<rparr>) noUrlHook =
     (Some ''failed to initialize plugin: webhook URL is required'',
      exampleLogger\<lparr>plugins := [busyPlugin]\<rparr>) \<and>
   RemovePlugin (exampleLogger\<lparr>plugins := [busyPlugin]\<rparr>) exampleHook =
     (Some ''plugin not found'', exampleLogger\<lparr>plugins := [busyPlugin]\<rparr>) \<and>
   RemovePlugin (exampleLogger\<lparr>plugins := [busyPlugin]\<rparr>) busyPlugin =
     (Some ''failed to close plugin: connection busy'', exampleLogger\<lparr>plugins := [busyPlugin]\<rparr>)"
proof -
  have init: "Initialize noUrlHook = Some ''webhook URL is required''"
    by (simp add: noUrlHook_def webhook_def WebhookPlugin_Initialize_def)
  have absent: "ident exampleHook \<notin> ident ` set (plugins (exampleLogger\<lparr>plugins := [busyPlugin]\<rparr>))"
    by (simp add: exampleHook_def webhook_def busyPlugin_def)
  have busy: "find (\<lambda>x. ident x = ident busyPlugin)
        (plugins (exampleLogger\<lparr>plugins := [busyPlugin]\<rparr>)) = Some busyPlugin \<and>
      Close busyPlugin = Some ''connection busy''"
    by (simp add: busyPlugin_def)
  from registry_unchanged_on_error
    [where p = noUrlHook and e = "''webhook URL is required''"
      and l = "exampleLogger\<lparr>plugins := [busyPlugin]\<rparr>" and q = exampleHook]
    registry_unchanged_on_error
    [where l = "exampleLogger\<lparr>plugins := [busyPlugin]\<rparr>" and q = busyPlugin
      and r = busyPlugin and e' = "''connection busy''"]
    init absent busy
  show ?thesis by simp
qed

end
